theory Spec2Isabelle
  imports Main "HOL-Library.Sublist" "HOL-Library.Word"
begin

section \<open>Python strings\<close>

text \<open>
  A Python \<open>str\<close> is modelled as a \<open>string\<close>: one \<open>char\<close> per code point, for the
  code points below 256. \<open>len\<close> is \<open>length\<close>. The operations below are the library
  string methods that \<open>notify.py\<close> calls.
\<close>

text \<open>\<open>str.isspace\<close> on one character: the code points below 256 that Python counts
  as whitespace (TAB, LF, VT, FF, CR, FS, GS, RS, US, SPACE, NEL, NBSP).\<close>

definition isspace :: "char \<Rightarrow> bool" where
  "isspace c \<longleftrightarrow> c \<in> set [CHR 0x09, CHR 0x0A, CHR 0x0B, CHR 0x0C, CHR 0x0D,
      CHR 0x1C, CHR 0x1D, CHR 0x1E, CHR 0x1F, CHR 0x20, CHR 0x85, CHR 0xA0]"

definition lstrip :: "string \<Rightarrow> string" where
  "lstrip s = dropWhile isspace s"

definition rstrip :: "string \<Rightarrow> string" where
  "rstrip s = rev (dropWhile isspace (rev s))"

definition strip :: "string \<Rightarrow> string" where
  "strip s = rstrip (lstrip s)"

text \<open>\<open>s.find(c)\<close> and \<open>s.rfind(c)\<close> for a one-character needle: the index of the first
  (last) occurrence, or \<open>-1\<close>.\<close>

fun str_find :: "string \<Rightarrow> char \<Rightarrow> int" where
  "str_find [] c = -1"
| "str_find (x # xs) c =
     (if x = c then 0 else (let r = str_find xs c in if r < 0 then -1 else r + 1))"

definition str_rfind :: "string \<Rightarrow> char \<Rightarrow> int" where
  "str_rfind s c =
     (let r = str_find (rev s) c in if r < 0 then -1 else int (length s) - 1 - r)"

text \<open>The slice \<open>s[:n]\<close> for an integer \<open>n\<close>: a negative bound counts from the end.\<close>

definition slice_to :: "string \<Rightarrow> int \<Rightarrow> string" where
  "slice_to s n = take (nat (if n < 0 then int (length s) + n else n)) s"

section \<open>Length capping\<close>

definition MAX_MESSAGE_LENGTH :: int where
  "MAX_MESSAGE_LENGTH = 200"

text \<open>\<open>_truncate(text, max_len)\<close>; the call \<open>_truncate(text)\<close> is
  \<open>truncate' text MAX_MESSAGE_LENGTH\<close>.\<close>

definition truncate' :: "string \<Rightarrow> int \<Rightarrow> string" where
  "truncate' text max_len =
     (if int (length text) \<le> max_len then text
      else (let cut = slice_to text max_len;
                last_period = str_rfind cut CHR ''.''
            in if last_period > max_len div 2 then slice_to cut (last_period + 1)
               else rstrip cut @ ''.''))"

text \<open>\<open>s.replace(old, new)\<close>: the occurrences of \<open>old\<close> are found from left to
  right, without overlap, and the text put in for one is not scanned again. With an empty
  \<open>old\<close>, \<open>new\<close> is put before every character and at the end.\<close>

function str_replace :: "string \<Rightarrow> string \<Rightarrow> string \<Rightarrow> string" where
  "str_replace [] old new = (if old = [] then new else [])"
| "str_replace (c # cs) old new =
     (if old = [] then new @ c # str_replace cs old new
      else if prefix old (c # cs) then new @ str_replace (drop (length old) (c # cs)) old new
      else c # str_replace cs old new)"
  by pat_completeness auto
termination
  by (relation "measure (\<lambda>(s, old, new). length s)") auto

text \<open>\<open>s.splitlines()\<close>: the line boundaries below code point 256 are LF, VT, FF, CR,
  FS, GS, RS and NEL, and CR LF counts as one; the boundaries are not kept and a final
  boundary opens no further line.\<close>

definition is_linebreak :: "char \<Rightarrow> bool" where
  "is_linebreak c \<longleftrightarrow> c \<in> set [CHR 0x0A, CHR 0x0B, CHR 0x0C, CHR 0x0D,
      CHR 0x1C, CHR 0x1D, CHR 0x1E, CHR 0x85]"

fun splitlines :: "string \<Rightarrow> string list" where
  "splitlines [] = []"
| "splitlines (c # cs) =
     (if is_linebreak c
      then [] # splitlines (if c = CHR 0x0D \<and> cs \<noteq> [] \<and> hd cs = CHR 0x0A then tl cs else cs)
      else (case splitlines cs of
              [] \<Rightarrow> [[c]]
            | l # ls \<Rightarrow> (c # l) # ls))"

section \<open>Python values and exceptions\<close>

text \<open>
  The values that \<open>json.loads\<close> produces: \<open>None\<close>, \<open>bool\<close>, \<open>int\<close>, \<open>float\<close> (its 64
  bits), \<open>str\<close>, \<open>list\<close> and \<open>dict\<close>. A \<open>dict\<close> is the list of its items; a key is
  bound to the first item that names it. The \<open>None\<close> that a function returns is
  \<open>JNull\<close>.
\<close>

datatype json =
    JNull
  | JBool bool
  | JInt int
  | JFloat "64 word"
  | JStr string
  | JArr "json list"
  | JObj "(string \<times> json) list"

text \<open>The exception classes the program can meet, each an \<open>Exception\<close>.
  \<open>FileNotFoundError\<close> is an \<open>OSError\<close>; \<open>OSError\<close> below is any other one (such as
  \<open>PermissionError\<close>). \<open>JSONDecodeError\<close> is a \<open>ValueError\<close>; \<open>ValueError\<close> below is any
  other one (such as \<open>UnicodeDecodeError\<close>). \<open>Exception\<close> is any other class. An
  exception carries its message, the text of \<open>str(e)\<close>.\<close>

datatype exc_class =
    FileNotFoundError | OSError | JSONDecodeError | ValueError | KeyError
  | AttributeError | TypeError | RuntimeError | Exception

datatype exn = Exn exc_class string

fun exn_class :: "exn \<Rightarrow> exc_class" where
  "exn_class (Exn c m) = c"

fun exn_message :: "exn \<Rightarrow> string" where
  "exn_message (Exn c m) = m"

text \<open>Truth value testing (\<open>if v\<close>, \<open>not v\<close>).\<close>

fun truthy :: "json \<Rightarrow> bool" where
  "truthy JNull = False"
| "truthy (JBool b) = b"
| "truthy (JInt n) = (n \<noteq> 0)"
| "truthy (JFloat w) = (push_bit 1 w \<noteq> 0)"
| "truthy (JStr s) = (s \<noteq> [])"
| "truthy (JArr xs) = (xs \<noteq> [])"
| "truthy (JObj kvs) = (kvs \<noteq> [])"

fun type_name :: "json \<Rightarrow> string" where
  "type_name JNull = ''NoneType''"
| "type_name (JBool b) = ''bool''"
| "type_name (JInt n) = ''int''"
| "type_name (JFloat w) = ''float''"
| "type_name (JStr s) = ''str''"
| "type_name (JArr xs) = ''list''"
| "type_name (JObj kvs) = ''dict''"

definition quoted :: "string \<Rightarrow> string" where
  "quoted s = CHR 0x27 # s @ [CHR 0x27]"

definition no_attribute :: "json \<Rightarrow> string \<Rightarrow> exn" where
  "no_attribute v name =
     Exn AttributeError (quoted (type_name v) @ '' object has no attribute '' @ quoted name)"

text \<open>\<open>d.get(k, dflt)\<close>: on the items of a \<open>dict\<close>, and on any value (only a \<open>dict\<close>
  has the method).\<close>

definition dict_lookup :: "(string \<times> json) list \<Rightarrow> string \<Rightarrow> json \<Rightarrow> json" where
  "dict_lookup kvs k dflt = (case map_of kvs k of None \<Rightarrow> dflt | Some v \<Rightarrow> v)"

definition dict_get :: "json \<Rightarrow> string \<Rightarrow> json \<Rightarrow> exn + json" where
  "dict_get d k dflt =
     (case d of
        JObj kvs \<Rightarrow> Inr (dict_lookup kvs k dflt)
      | _ \<Rightarrow> Inl (no_attribute d ''get''))"

text \<open>\<open>d[k]\<close> on a \<open>dict\<close>.\<close>

definition dict_item :: "(string \<times> json) list \<Rightarrow> string \<Rightarrow> exn + json" where
  "dict_item kvs k =
     (case map_of kvs k of None \<Rightarrow> Inl (Exn KeyError (quoted k)) | Some v \<Rightarrow> Inr v)"

text \<open>\<open>for x in v\<close>: a list gives its elements, a string its characters, a dict its
  keys; nothing else is iterable.\<close>

definition py_iter :: "json \<Rightarrow> exn + json list" where
  "py_iter v =
     (case v of
        JArr xs \<Rightarrow> Inr xs
      | JStr s \<Rightarrow> Inr (map (\<lambda>c. JStr [c]) s)
      | JObj kvs \<Rightarrow> Inr (map (\<lambda>kv. JStr (fst kv)) kvs)
      | _ \<Rightarrow> Inl (Exn TypeError (quoted (type_name v) @ '' object is not iterable'')))"

text \<open>\<open>t.replace(old, new)\<close> on Python values: \<open>t\<close> must be a \<open>str\<close> to have the method,
  and then \<open>new\<close> must be a \<open>str\<close>.\<close>

definition replace_method :: "json \<Rightarrow> string \<Rightarrow> json \<Rightarrow> exn + string" where
  "replace_method t old new =
     (case t of
        JStr s \<Rightarrow>
          (case new of
             JStr n \<Rightarrow> Inr (str_replace s old n)
           | _ \<Rightarrow> Inl (Exn TypeError
                      (''replace() argument 2 must be str, not '' @ type_name new)))
      | _ \<Rightarrow> Inl (no_attribute t ''replace''))"

section \<open>The environment\<close>

text \<open>
  What the program reads from outside itself:
  \<^item> \<open>stdin\<close>: the text on standard input;
  \<^item> \<open>json_loads\<close>: \<open>json.loads\<close>, the message of the \<open>JSONDecodeError\<close> or the value;
  \<^item> \<open>config_read\<close>: opening and reading \<open>config.json\<close>, the exception or the text;
  \<^item> \<open>open_text\<close>: \<open>open(p, encoding="utf-8")\<close> and the iteration over the file, for a
    Python value \<open>p\<close>: the exception of \<open>open\<close>, or the lines read and the exception that
    ends the reading, if any;
  \<^item> \<open>format_str\<close>: the text an f-string gives a value that is not a \<open>str\<close>;
  \<^item> \<open>debug_log_writable\<close>: whether appending to \<open>debug.log\<close> succeeds (else \<open>OSError\<close>);
  \<^item> \<open>speech_setup\<close>: importing \<open>edge_tts\<close> and creating the temporary file;
  \<^item> \<open>synthesize\<close>: \<open>edge_tts.Communicate(text, voice, rate, volume, pitch)\<close> and
    \<open>save\<close>;
  \<^item> \<open>playback\<close>: \<open>play_mp3\<close> on the temporary file.
  The last three give the exception raised, if any.
\<close>

record world =
  stdin :: string
  json_loads :: "string \<Rightarrow> string + json"
  config_read :: "exn + string"
  open_text :: "json \<Rightarrow> exn + (string list \<times> exn option)"
  format_str :: "json \<Rightarrow> string"
  debug_log_writable :: bool
  speech_setup :: "exn option"
  synthesize :: "json \<Rightarrow> json \<Rightarrow> json \<Rightarrow> json \<Rightarrow> json \<Rightarrow> exn option"
  playback :: "exn option"

section \<open>Configuration\<close>

definition default_message_items :: "(string \<times> json) list" where
  "default_message_items =
     [(''prompt_submit'', JStr ''On it.''),
      (''stop'', JStr ''Done. {summary}''),
      (''notification_permission_prompt'', JStr ''Need your permission. {message}''),
      (''notification_idle_prompt'', JStr ''Waiting for your input.''),
      (''notification_default'', JStr ''{message}'')]"

text \<open>\<open>DEFAULT_CONFIG["messages"]\<close>.\<close>

definition DEFAULT_MESSAGES :: json where
  "DEFAULT_MESSAGES = JObj default_message_items"

definition DEFAULT_CONFIG :: json where
  "DEFAULT_CONFIG = JObj
     [(''enabled'', JBool True),
      (''voice'', JStr ''en-US-GuyNeural''),
      (''rate'', JStr ''+0%''),
      (''volume'', JStr ''+0%''),
      (''pitch'', JStr ''+0Hz''),
      (''messages'', DEFAULT_MESSAGES)]"

text \<open>\<open>load_config()\<close>: the result, and the lines it prints to standard error. The
  handler catches \<open>FileNotFoundError\<close> and \<open>JSONDecodeError\<close> only.\<close>

definition load_config :: "world \<Rightarrow> (exn + json) \<times> string list" where
  "load_config w =
     (case (case config_read w of
              Inl e \<Rightarrow> Inl e
            | Inr content \<Rightarrow>
                (case json_loads w content of
                   Inl m \<Rightarrow> Inl (Exn JSONDecodeError m)
                 | Inr doc \<Rightarrow> Inr doc)) of
        Inl e \<Rightarrow>
          if exn_class e = FileNotFoundError \<or> exn_class e = JSONDecodeError
          then (Inr DEFAULT_CONFIG, [''Config error, using defaults: '' @ exn_message e])
          else (Inl e, [])
      | Inr doc \<Rightarrow> (Inr doc, []))"

section \<open>Transcript summary\<close>

text \<open>The inner loop of \<open>_extract_summary\<close>, \<open>for block in ...\<close>: \<open>block.get\<close> needs a
  \<open>dict\<close>, and \<open>block["text"]\<close> raises \<open>KeyError\<close> when the key is missing.\<close>

fun scan_blocks :: "json list \<Rightarrow> json \<Rightarrow> exn + json" where
  "scan_blocks [] last_text = Inr last_text"
| "scan_blocks (block # blocks) last_text =
     (case block of
        JObj kvs \<Rightarrow>
          if dict_lookup kvs ''type'' JNull = JStr ''text''
          then (case dict_item kvs ''text'' of
                  Inl e \<Rightarrow> Inl e
                | Inr v \<Rightarrow> scan_blocks blocks v)
          else scan_blocks blocks last_text
      | _ \<Rightarrow> Inl (no_attribute block ''get''))"

text \<open>The body of the outer loop for one parsed line.\<close>

definition scan_entry :: "json \<Rightarrow> json \<Rightarrow> exn + json" where
  "scan_entry entry last_text =
     (case dict_get entry ''type'' JNull of
        Inl e \<Rightarrow> Inl e
      | Inr t \<Rightarrow>
          if t = JStr ''assistant''
          then (case dict_get entry ''message'' (JObj []) of
                  Inl e \<Rightarrow> Inl e
                | Inr message \<Rightarrow>
                    (case dict_get message ''content'' (JArr []) of
                       Inl e \<Rightarrow> Inl e
                     | Inr content \<Rightarrow>
                         (case py_iter content of
                            Inl e \<Rightarrow> Inl e
                          | Inr blocks \<Rightarrow> scan_blocks blocks last_text)))
          else Inr last_text)"

text \<open>The outer loop, \<open>for line in f\<close>.\<close>

fun scan_lines :: "world \<Rightarrow> string list \<Rightarrow> json \<Rightarrow> exn + json" where
  "scan_lines w [] last_text = Inr last_text"
| "scan_lines w (line # rest) last_text =
     (let line = strip line in
      if line = [] then scan_lines w rest last_text
      else (case json_loads w line of
              Inl m \<Rightarrow> Inl (Exn JSONDecodeError m)
            | Inr entry \<Rightarrow>
                (case scan_entry entry last_text of
                   Inl e \<Rightarrow> Inl e
                 | Inr last_text \<Rightarrow> scan_lines w rest last_text)))"

text \<open>The code after the loop: the last non-empty line of the captured text, cut after
  the first period found at an index from 1 to 149, else to 150 characters.\<close>

definition last_snippet :: "json \<Rightarrow> exn + string" where
  "last_snippet last_text =
     (if \<not> truthy last_text then Inr []
      else (case last_text of
              JStr s \<Rightarrow>
                (let lines = map strip (filter (\<lambda>l. strip l \<noteq> []) (splitlines (strip s)));
                     snippet = (if lines \<noteq> [] then last lines else strip s);
                     period = str_find snippet CHR ''.''
                 in if 0 < period \<and> period < 150 then Inr (slice_to snippet (period + 1))
                    else Inr (slice_to snippet 150))
            | _ \<Rightarrow> Inl (no_attribute last_text ''strip'')))"

text \<open>\<open>_extract_summary(transcript_path)\<close>. The handler catches \<open>OSError\<close>,
  \<open>JSONDecodeError\<close> and \<open>KeyError\<close>; any other exception leaves the function.\<close>

definition extract_summary :: "world \<Rightarrow> json \<Rightarrow> exn + string" where
  "extract_summary w transcript_path =
     (case (case open_text w transcript_path of
              Inl e \<Rightarrow> Inl e
            | Inr (lines, read_error) \<Rightarrow>
                (case scan_lines w lines (JStr []) of
                   Inl e \<Rightarrow> Inl e
                 | Inr last_text \<Rightarrow>
                     (case read_error of
                        Some e \<Rightarrow> Inl e
                      | None \<Rightarrow> last_snippet last_text))) of
        Inl e \<Rightarrow>
          if exn_class e = OSError \<or> exn_class e = FileNotFoundError \<or>
             exn_class e = JSONDecodeError \<or> exn_class e = KeyError
          then Inr []
          else Inl e
      | Inr snippet \<Rightarrow> Inr snippet)"

text \<open>The line that the code after the loop takes from a captured text \<open>s\<close>: the last
  non-empty line, stripped.\<close>

definition last_line :: "string \<Rightarrow> string" where
  "last_line s =
     (let lines = map strip (filter (\<lambda>l. strip l \<noteq> []) (splitlines (strip s)))
      in if lines \<noteq> [] then last lines else strip s)"

section \<open>Message resolution\<close>

text \<open>The value an f-string puts in for \<open>{v}\<close>.\<close>

definition py_format :: "world \<Rightarrow> json \<Rightarrow> string" where
  "py_format w v = (case v of JStr s \<Rightarrow> s | _ \<Rightarrow> format_str w v)"

text \<open>The \<open>Stop\<close> branch of \<open>resolve_message\<close>, after the test of \<open>stop_hook_active\<close>.\<close>

definition resolve_stop :: "world \<Rightarrow> json \<Rightarrow> json \<Rightarrow> exn + json" where
  "resolve_stop w event messages =
     (case dict_get messages ''stop'' (JStr ''Done. {summary}'') of
        Inl e \<Rightarrow> Inl e
      | Inr template \<Rightarrow>
     (case dict_get event ''transcript_summary'' (JStr []) of
        Inl e \<Rightarrow> Inl e
      | Inr summary \<Rightarrow>
     (case (if \<not> truthy summary
            then (case dict_get event ''transcript_path'' (JStr []) of
                    Inl e \<Rightarrow> Inl e
                  | Inr transcript_path \<Rightarrow>
                      if truthy transcript_path
                      then (case extract_summary w transcript_path of
                              Inl e \<Rightarrow> Inl e
                            | Inr s \<Rightarrow> Inr (JStr s))
                      else Inr summary)
            else Inr summary) of
        Inl e \<Rightarrow> Inl e
      | Inr summary \<Rightarrow>
     (case (if \<not> truthy summary
            then (case replace_method template ''{summary}'' (JStr []) of
                    Inl e \<Rightarrow> Inl e
                  | Inr t \<Rightarrow> Inr (strip t))
            else replace_method template ''{summary}'' summary) of
        Inl e \<Rightarrow> Inl e
      | Inr text \<Rightarrow> Inr (JStr (truncate' text MAX_MESSAGE_LENGTH))))))"

text \<open>The \<open>Notification\<close> branch.\<close>

definition resolve_notification :: "world \<Rightarrow> json \<Rightarrow> json \<Rightarrow> exn + json" where
  "resolve_notification w event messages =
     (case dict_get event ''notification_type'' (JStr []) of
        Inl e \<Rightarrow> Inl e
      | Inr notif_type \<Rightarrow>
     (let key = ''notification_'' @ py_format w notif_type in
      case dict_get messages ''notification_default'' (JStr ''{message}'') of
        Inl e \<Rightarrow> Inl e
      | Inr fallback \<Rightarrow>
     (case dict_get messages key fallback of
        Inl e \<Rightarrow> Inl e
      | Inr template \<Rightarrow>
     (case dict_get event ''message'' (JStr ''Notification'') of
        Inl e \<Rightarrow> Inl e
      | Inr raw_message \<Rightarrow>
     (case replace_method template ''{message}'' raw_message of
        Inl e \<Rightarrow> Inl e
      | Inr text \<Rightarrow> Inr (JStr (truncate' text MAX_MESSAGE_LENGTH)))))))"

text \<open>\<open>resolve_message(event, config)\<close>: the exception raised, or the value returned
  (\<open>JNull\<close> is \<open>None\<close>).\<close>

definition resolve_message :: "world \<Rightarrow> json \<Rightarrow> json \<Rightarrow> exn + json" where
  "resolve_message w event config =
     (case dict_get event ''hook_event_name'' (JStr []) of
        Inl e \<Rightarrow> Inl e
      | Inr hook_event \<Rightarrow>
     (case dict_get config ''messages'' DEFAULT_MESSAGES of
        Inl e \<Rightarrow> Inl e
      | Inr messages \<Rightarrow>
          if hook_event = JStr ''UserPromptSubmit''
          then dict_get messages ''prompt_submit'' (JStr ''On it.'')
          else if hook_event = JStr ''Stop''
          then (case dict_get event ''stop_hook_active'' (JBool False) of
                  Inl e \<Rightarrow> Inl e
                | Inr active \<Rightarrow>
                    if truthy active then Inr JNull else resolve_stop w event messages)
          else if hook_event = JStr ''Notification''
          then resolve_notification w event messages
          else Inr JNull))"

section \<open>Speech and the entry point\<close>

text \<open>What a run does to the outside: the lines printed to standard error, the events
  appended to \<open>debug.log\<close>, the texts \<open>speak\<close> was called with, the texts given to the
  synthesizer, and the number of calls of \<open>play_mp3\<close>.\<close>

record effects =
  stderr :: "string list"
  log_file :: "json list"
  spoken :: "json list"
  synthesized :: "json list"
  played :: nat

definition no_effects :: effects where
  "no_effects = \<lparr>stderr = [], log_file = [], spoken = [], synthesized = [], played = 0\<rparr>"

text \<open>\<open>speak(text, config)\<close>, that is \<open>_generate_and_play\<close>: synthesis, then playback.
  Removing the temporary file changes nothing here.\<close>

definition speak :: "world \<Rightarrow> json \<Rightarrow> json \<Rightarrow> effects \<Rightarrow> (exn + unit) \<times> effects" where
  "speak w text config eff =
     (let eff = eff\<lparr>spoken := spoken eff @ [text]\<rparr> in
      case speech_setup w of
        Some e \<Rightarrow> (Inl e, eff)
      | None \<Rightarrow>
          (case config of
             JObj kvs \<Rightarrow>
               (let voice = dict_lookup kvs ''voice'' (JStr ''en-US-GuyNeural'');
                    rate = dict_lookup kvs ''rate'' (JStr ''+0%'');
                    volume = dict_lookup kvs ''volume'' (JStr ''+0%'');
                    pitch = dict_lookup kvs ''pitch'' (JStr ''+0Hz'');
                    eff = eff\<lparr>synthesized := synthesized eff @ [text]\<rparr>
                in case synthesize w text voice rate volume pitch of
                     Some e \<Rightarrow> (Inl e, eff)
                   | None \<Rightarrow>
                       (let eff = eff\<lparr>played := played eff + 1\<rparr> in
                        case playback w of
                          Some e \<Rightarrow> (Inl e, eff)
                        | None \<Rightarrow> (Inr (), eff)))
           | _ \<Rightarrow> (Inl (no_attribute config ''get''), eff)))"

text \<open>\<open>_debug_log(event)\<close>: an \<open>OSError\<close> is swallowed.\<close>

definition debug_log :: "world \<Rightarrow> json \<Rightarrow> effects \<Rightarrow> effects" where
  "debug_log w event eff =
     (if debug_log_writable w then eff\<lparr>log_file := log_file eff @ [event]\<rparr> else eff)"

text \<open>The first two lines of \<open>main()\<close>: the event read from standard input.\<close>

definition read_event :: "world \<Rightarrow> exn + json" where
  "read_event w =
     (let raw = stdin w in
      if strip raw \<noteq> []
      then (case json_loads w raw of
              Inl m \<Rightarrow> Inl (Exn JSONDecodeError m)
            | Inr v \<Rightarrow> Inr v)
      else Inr (JObj []))"

text \<open>\<open>main()\<close>.\<close>

definition main :: "world \<Rightarrow> (exn + unit) \<times> effects" where
  "main w =
     (case read_event w of
        Inl e \<Rightarrow> (Inl e, no_effects)
      | Inr event \<Rightarrow>
          (case load_config w of
             (Inl e, printed) \<Rightarrow> (Inl e, no_effects\<lparr>stderr := printed\<rparr>)
           | (Inr config, printed) \<Rightarrow>
               (let eff = no_effects\<lparr>stderr := printed\<rparr> in
                case dict_get config ''debug'' (JBool False) of
                  Inl e \<Rightarrow> (Inl e, eff)
                | Inr debug \<Rightarrow>
                    (let eff = (if truthy debug then debug_log w event eff else eff) in
                     case dict_get config ''enabled'' (JBool True) of
                       Inl e \<Rightarrow> (Inl e, eff)
                     | Inr enabled \<Rightarrow>
                         if \<not> truthy enabled then (Inr (), eff)
                         else (case resolve_message w event config of
                                 Inl e \<Rightarrow> (Inl e, eff)
                               | Inr message \<Rightarrow>
                                   if truthy message then speak w message config eff
                                   else (Inr (), eff))))))"

text \<open>The script: \<open>main()\<close> under \<open>except Exception\<close>, which prints the message and calls
  \<open>sys.exit(0)\<close>. The result is what the run did and the exit code of the process.\<close>

definition run :: "world \<Rightarrow> effects \<times> int" where
  "run w =
     (case main w of
        (Inl e, eff) \<Rightarrow>
          (eff\<lparr>stderr := stderr eff @ [''claudevoice error: '' @ exn_message e]\<rparr>, 0)
      | (Inr u, eff) \<Rightarrow> (eff, 0))"

text \<open>What \<open>main\<close> has done when it calls \<open>resolve_message\<close>: the diagnostic of
  \<open>load_config\<close>, if any, and the debug log.\<close>

definition before_speech ::
  "world \<Rightarrow> json \<Rightarrow> (string \<times> json) list \<Rightarrow> string list \<Rightarrow> effects" where
  "before_speech w event cf printed =
     (if truthy (dict_lookup cf ''debug'' (JBool False))
      then debug_log w event (no_effects\<lparr>stderr := printed\<rparr>)
      else no_effects\<lparr>stderr := printed\<rparr>)"

section \<open>Missing message keys\<close>

text \<open>The reading of the specification: the \<open>messages\<close> mapping of the configuration laid
  over the built-in \<open>messages\<close> mapping, key by key.\<close>

definition overlay_defaults :: "(string \<times> json) list \<Rightarrow> json" where
  "overlay_defaults ms = JObj (ms @ default_message_items)"

text \<open>What the code does instead: the defaults written in the calls of \<open>messages.get\<close>,
  and, for the key of the notification sub-type, the \<open>notification_default\<close> template.\<close>

definition inline_defaults :: "(string \<times> json) list" where
  "inline_defaults =
     [(''prompt_submit'', JStr ''On it.''),
      (''stop'', JStr ''Done. {summary}''),
      (''notification_default'', JStr ''{message}'')]"

definition notification_key :: "world \<Rightarrow> (string \<times> json) list \<Rightarrow> string" where
  "notification_key w ev =
     ''notification_'' @ py_format w (dict_lookup ev ''notification_type'' (JStr []))"

definition code_overlay ::
  "world \<Rightarrow> (string \<times> json) list \<Rightarrow> (string \<times> json) list \<Rightarrow> (string \<times> json) list" where
  "code_overlay w ev ms =
     ms @ [(notification_key w ev, dict_lookup ms ''notification_default'' (JStr ''{message}''))]
        @ inline_defaults"

definition idle_items :: "(string \<times> json) list" where
  "idle_items = [(''hook_event_name'', JStr ''Notification''),
                 (''notification_type'', JStr ''idle_prompt'')]"

section \<open>Well-typed events, configurations and transcripts\<close>

text \<open>The conditions under which \<open>resolve_message\<close> is shown to return: the values it
  passes to string methods are strings, and the transcript, when it is read, cannot be
  opened (an exception that \<open>_extract_summary\<close> catches) or holds blank lines, lines
  that do not parse, and records of the expected shape.\<close>

definition is_str :: "json \<Rightarrow> bool" where
  "is_str v = (case v of JStr s \<Rightarrow> True | _ \<Rightarrow> False)"

definition str_or_absent :: "(string \<times> json) list \<Rightarrow> string \<Rightarrow> bool" where
  "str_or_absent kvs k = (case map_of kvs k of None \<Rightarrow> True | Some v \<Rightarrow> is_str v)"

text \<open>The handler of \<open>_extract_summary\<close>.\<close>

definition summary_catches :: "exn \<Rightarrow> bool" where
  "summary_catches e \<longleftrightarrow>
     exn_class e = OSError \<or> exn_class e = FileNotFoundError \<or>
     exn_class e = JSONDecodeError \<or> exn_class e = KeyError"

text \<open>A content block is a \<open>dict\<close>; a block of type \<open>text\<close> has no \<open>text\<close> or a string.\<close>

definition wf_block :: "json \<Rightarrow> bool" where
  "wf_block block =
     (case block of
        JObj kvs \<Rightarrow>
          (if dict_lookup kvs ''type'' JNull = JStr ''text'' then str_or_absent kvs ''text''
           else True)
      | _ \<Rightarrow> False)"

text \<open>A record is a \<open>dict\<close>; an assistant record has a \<open>dict\<close> as its message (or none)
  and a list of content blocks as its content (or none).\<close>

definition wf_entry :: "json \<Rightarrow> bool" where
  "wf_entry entry =
     (case entry of
        JObj kvs \<Rightarrow>
          (if dict_lookup kvs ''type'' JNull = JStr ''assistant''
           then (case dict_lookup kvs ''message'' (JObj []) of
                   JObj mk \<Rightarrow>
                     (case dict_lookup mk ''content'' (JArr []) of
                        JArr blocks \<Rightarrow> list_all wf_block blocks
                      | _ \<Rightarrow> False)
                 | _ \<Rightarrow> False)
           else True)
      | _ \<Rightarrow> False)"

definition wf_line :: "world \<Rightarrow> string \<Rightarrow> bool" where
  "wf_line w line =
     (strip line = [] \<or>
      (case json_loads w (strip line) of Inl m \<Rightarrow> True | Inr entry \<Rightarrow> wf_entry entry))"

definition readable_transcript :: "world \<Rightarrow> json \<Rightarrow> bool" where
  "readable_transcript w p =
     (case open_text w p of
        Inl e \<Rightarrow> summary_catches e
      | Inr (lines, read_error) \<Rightarrow>
          list_all (wf_line w) lines \<and>
          (case read_error of None \<Rightarrow> True | Some e \<Rightarrow> summary_catches e))"

text \<open>The events for which the \<open>Stop\<close> branch calls \<open>_extract_summary\<close>, and those for
  which \<open>resolve_message\<close> has a rule.\<close>

definition reads_transcript :: "(string \<times> json) list \<Rightarrow> bool" where
  "reads_transcript ev \<longleftrightarrow>
     dict_lookup ev ''hook_event_name'' (JStr []) = JStr ''Stop'' \<and>
     \<not> truthy (dict_lookup ev ''stop_hook_active'' (JBool False)) \<and>
     \<not> truthy (dict_lookup ev ''transcript_summary'' (JStr [])) \<and>
     truthy (dict_lookup ev ''transcript_path'' (JStr []))"

definition has_rule :: "(string \<times> json) list \<Rightarrow> bool" where
  "has_rule ev \<longleftrightarrow>
     dict_lookup ev ''hook_event_name'' (JStr []) = JStr ''UserPromptSubmit'' \<or>
     dict_lookup ev ''hook_event_name'' (JStr []) = JStr ''Notification'' \<or>
     dict_lookup ev ''hook_event_name'' (JStr []) = JStr ''Stop'' \<and>
       \<not> truthy (dict_lookup ev ''stop_hook_active'' (JBool False))"

text \<open>The invariant of the scan: an exception that the handler catches, or a string.\<close>

definition scan_ok :: "exn + json \<Rightarrow> bool" where
  "scan_ok r = (case r of Inl e \<Rightarrow> summary_catches e | Inr v \<Rightarrow> is_str v)"

section \<open>Placeholders and segments\<close>

text \<open>\<open>sep.join(parts)\<close>, to state what \<open>str.replace\<close> does to a template: the template
  is its segments joined by the placeholder, the result the same segments joined by the
  value.\<close>

fun str_join :: "string \<Rightarrow> string list \<Rightarrow> string" where
  "str_join sep [] = []"
| "str_join sep [x] = x"
| "str_join sep (x # y # ys) = x @ sep @ str_join sep (y # ys)"

text \<open>A placeholder: a name in braces, the name without braces.\<close>

definition placeholder :: "string \<Rightarrow> bool" where
  "placeholder u =
     (case u of
        [] \<Rightarrow> False
      | c # r \<Rightarrow> c = CHR ''{'' \<and> r \<noteq> [] \<and> last r = CHR ''}'' \<and>
                 CHR ''{'' \<notin> set r \<and> CHR ''}'' \<notin> set (butlast r))"

section \<open>Example environments\<close>

text \<open>An environment with nothing in it: empty standard input, no configuration file,
  no transcript, and collaborators that succeed.\<close>

definition quiet_world :: world where
  "quiet_world =
     \<lparr>stdin = [],
      json_loads = (\<lambda>s. Inl ''Expecting value''),
      config_read = Inl (Exn FileNotFoundError ''No such file or directory''),
      open_text = (\<lambda>p. Inl (Exn FileNotFoundError ''No such file or directory'')),
      format_str = (\<lambda>v. ''None''),
      debug_log_writable = True,
      speech_setup = None,
      synthesize = (\<lambda>text voice rate volume pitch. None),
      playback = None\<rparr>"

text \<open>A transcript of one line, \<open>transcript.jsonl\<close>, with the value the line parses to.\<close>

definition transcript_world :: "string \<Rightarrow> json \<Rightarrow> world" where
  "transcript_world line entry =
     quiet_world
       \<lparr>json_loads := (\<lambda>s. if s = line then Inr entry else Inl ''Expecting value''),
        open_text := (\<lambda>p. if p = JStr ''transcript.jsonl''
                           then Inr ([line @ [CHR 0x0A]], None)
                           else Inl (Exn FileNotFoundError ''No such file or directory''))\<rparr>"

definition short_line_record :: string where
  \<open>short_line_record =
     ''{"type": "assistant", "message": {"content": [{"type": "text", "text": "Done. See the file"}]}}''\<close>

definition short_line_entry :: json where
  "short_line_entry =
     JObj [(''type'', JStr ''assistant''),
           (''message'', JObj [(''content'',
              JArr [JObj [(''type'', JStr ''text''), (''text'', JStr ''Done. See the file'')]])])]"

text \<open>An assistant record with one text block, as a line of the transcript and as the
  value the line parses to.\<close>

definition text_record :: "string \<Rightarrow> string" where
  \<open>text_record s =
     ''{"type": "assistant", "message": {"content": [{"type": "text", "text": "'' @ s @ ''"}]}}''\<close>

definition text_entry :: "string \<Rightarrow> json" where
  "text_entry s =
     JObj [(''type'', JStr ''assistant''),
           (''message'', JObj [(''content'',
              JArr [JObj [(''type'', JStr ''text''), (''text'', JStr s)]])])]"

text \<open>Two lines of more than 150 characters: one that begins with a period, one with a
  period at index 4.\<close>

definition dotted_line :: string where
  "dotted_line = CHR ''.'' # replicate 150 CHR ''a''"

definition long_line :: string where
  "long_line = ''Done.'' @ replicate 150 CHR ''a''"

text \<open>A run on one event and one configuration file: the text on standard input and
  the value it parses to, the text of \<open>config.json\<close> and the value it parses to.\<close>

definition example_world :: "string \<Rightarrow> json \<Rightarrow> string \<Rightarrow> json \<Rightarrow> world" where
  "example_world input event conf config =
     quiet_world
       \<lparr>stdin := input,
        config_read := Inr conf,
        json_loads := (\<lambda>s. if s = input then Inr event
                            else if s = conf then Inr config
                            else Inl ''Expecting value'')\<rparr>"

definition prompt_input :: string where
  \<open>prompt_input = ''{"hook_event_name": "UserPromptSubmit"}''\<close>

definition prompt_event :: json where
  "prompt_event = JObj [(''hook_event_name'', JStr ''UserPromptSubmit'')]"

definition stop_input :: string where
  \<open>stop_input = ''{"hook_event_name": "Stop"}''\<close>

definition stop_event :: json where
  "stop_event = JObj [(''hook_event_name'', JStr ''Stop'')]"

definition empty_conf :: string where
  "empty_conf = ''{}''"

definition number_conf :: string where
  \<open>number_conf = ''{"messages": {"prompt_submit": 5}}''\<close>

definition number_config :: json where
  "number_config = JObj [(''messages'', JObj [(''prompt_submit'', JInt 5)])]"

definition bare_conf :: string where
  \<open>bare_conf = ''{"messages": {"stop": "{summary}"}}''\<close>

definition bare_config :: json where
  "bare_config = JObj [(''messages'', JObj [(''stop'', JStr ''{summary}'')])]"

definition stop_path_items :: "(string \<times> json) list" where
  "stop_path_items = [(''hook_event_name'', JStr ''Stop''),
                      (''transcript_path'', JStr ''transcript.jsonl'')]"

section \<open>Facts about strings and dictionaries\<close>

lemma length_rstrip_le: "length (rstrip s) \<le> length s"
  unfolding rstrip_def by (simp add: length_dropWhile_le order.trans [OF length_dropWhile_le])

lemma prefix_rstrip: "prefix (rstrip s) s"
proof -
  have "suffix (dropWhile isspace (rev s)) (rev s)"
    by (rule suffix_dropWhile)
  then have "prefix (rev (dropWhile isspace (rev s))) (rev (rev s))"
    by (simp only: suffix_to_prefix rev_rev_ident)
  then show ?thesis by (simp add: rstrip_def)
qed

lemma prefix_slice_to: "prefix (slice_to s n) s"
  unfolding slice_to_def by (rule take_is_prefix)

lemma length_slice_to_le: "0 \<le> n \<Longrightarrow> int (length (slice_to s n)) \<le> n"
  unfolding slice_to_def by simp

lemma str_find_absent: "c \<notin> set s \<Longrightarrow> str_find s c = -1"
  by (induction s) (auto simp: Let_def)

lemma str_rfind_absent: "c \<notin> set s \<Longrightarrow> str_rfind s c = -1"
  by (simp add: str_rfind_def str_find_absent)

lemma dict_lookup_Nil: "dict_lookup [] k d = d"
  by (simp add: dict_lookup_def)

lemma dict_lookup_Cons:
  "dict_lookup ((k', v) # ys) k d = (if k = k' then v else dict_lookup ys k d)"
  by (simp add: dict_lookup_def)

lemma dict_lookup_append:
  "dict_lookup (xs @ ys) k d = (case map_of xs k of Some v \<Rightarrow> v | None \<Rightarrow> dict_lookup ys k d)"
  by (simp add: dict_lookup_def map_add_def split: option.splits)

lemma dict_lookup_self:
  "(case map_of xs k of Some v \<Rightarrow> v | None \<Rightarrow> d) = dict_lookup xs k d"
  by (simp add: dict_lookup_def split: option.splits)

lemma dict_get_JObj: "dict_get (JObj kvs) k d = Inr (dict_lookup kvs k d)"
  by (simp add: dict_get_def)

section \<open>Properties of length capping\<close>

text \<open>
  Claim C7. For every text, \<open>_truncate\<close> with the default maximum of 200 returns a string
  of at most 201 characters.
\<close>

theorem truncate_default_length_le_201:
  "length (truncate' T MAX_MESSAGE_LENGTH) \<le> 201"
proof (cases "int (length T) \<le> 200")
  case True
  then show ?thesis by (simp add: truncate'_def MAX_MESSAGE_LENGTH_def)
next
  case False
  let ?cut = "slice_to T 200"
  have cut: "length ?cut \<le> 200"
    using length_slice_to_le [of 200 T] by simp
  have a: "length (slice_to ?cut k) \<le> 201" for k
    using prefix_length_le [OF prefix_slice_to [of ?cut k]] cut by simp
  have b: "length (rstrip ?cut @ ''.'') \<le> 201"
    using length_rstrip_le [of ?cut] cut by simp
  from False a b show ?thesis
    by (simp add: truncate'_def MAX_MESSAGE_LENGTH_def Let_def)
qed

text \<open>
  Claim C8. For every text longer than 200 characters that contains no period, \<open>_truncate\<close>
  with the default maximum returns the first 200 characters, stripped of trailing
  whitespace, followed by one period.
\<close>

theorem truncate_no_period:
  assumes "length T > 200" and "CHR ''.'' \<notin> set T"
  shows "truncate' T MAX_MESSAGE_LENGTH = rstrip (take 200 T) @ ''.''"
proof -
  have "CHR ''.'' \<notin> set (take 200 T)"
    using assms(2) by (auto dest: in_set_takeD)
  then have "str_rfind (take 200 T) CHR ''.'' = -1"
    by (rule str_rfind_absent)
  with assms(1) show ?thesis
    by (simp add: truncate'_def MAX_MESSAGE_LENGTH_def slice_to_def Let_def)
qed

theorem truncate_no_period_witness:
  "length (replicate 199 CHR ''a'' @ ''  '') > 200 \<and>
   CHR ''.'' \<notin> set (replicate 199 CHR ''a'' @ ''  '') \<and>
   truncate' (replicate 199 CHR ''a'' @ ''  '') MAX_MESSAGE_LENGTH =
     replicate 199 CHR ''a'' @ ''.''"
proof -
  let ?T = "replicate 199 CHR ''a'' @ ''  ''"
  have h1: "length ?T > 200" by simp
  have h2: "CHR ''.'' \<notin> set ?T" by simp
  have "take 200 ?T = replicate 199 CHR ''a'' @ '' ''" by simp
  moreover have "rstrip (replicate 199 CHR ''a'' @ '' '') = replicate 199 CHR ''a''"
    by (simp add: rstrip_def isspace_def)
  ultimately show ?thesis using h1 h2 truncate_no_period [OF h1 h2] by simp
qed

text \<open>
  Claim C10. For every text and every maximum length, the result of \<open>_truncate\<close> is a
  prefix of the text, or a prefix of the text with its trailing whitespace removed and
  one period appended.
\<close>

theorem truncate_prefix_or_clipped:
  "prefix (truncate' text max_len) text \<or>
   (\<exists>p. prefix p text \<and> truncate' text max_len = rstrip p @ ''.'')"
proof -
  let ?cut = "slice_to text max_len"
  have "prefix (slice_to ?cut k) text" for k
    using prefix_slice_to [of ?cut k] prefix_slice_to [of "text" max_len]
    by (rule prefix_order.trans)
  moreover have "\<exists>p. prefix p text \<and> rstrip ?cut @ ''.'' = rstrip p @ ''.''"
    using prefix_slice_to [of "text" max_len] by blast
  ultimately show ?thesis
    by (simp add: truncate'_def Let_def)
qed

section \<open>The transcript summary of the last line\<close>

lemma last_snippet_eq:
  "s \<noteq> [] \<Longrightarrow>
   last_snippet (JStr s) =
     Inr (if 0 < str_find (last_line s) CHR ''.'' \<and> str_find (last_line s) CHR ''.'' < 150
          then slice_to (last_line s) (str_find (last_line s) CHR ''.'' + 1)
          else slice_to (last_line s) 150)"
  by (simp add: last_snippet_def last_line_def Let_def)

lemma str_find_bounds: "-1 \<le> str_find s c \<and> str_find s c < int (length s)"
  by (induction s) (auto simp: Let_def)

text \<open>
  Claim C2, as stated, fails in two ways. A last line of more than 150 characters that
  begins with a period is cut to 150 characters, not to the period: the test
  \<open>0 < period\<close> leaves a period at index 0 out. And a last line of at most 150
  characters is not always returned unchanged: \<open>Done. See the file\<close>, of 18 characters,
  gives \<open>Done.\<close>, since the length of the line is never tested.
\<close>

theorem extract_summary_cut_examples:
  "length dotted_line = 151 \<and> last_line dotted_line = dotted_line \<and>
   extract_summary (transcript_world (text_record dotted_line) (text_entry dotted_line))
     (JStr ''transcript.jsonl'') = Inr (CHR ''.'' # replicate 149 CHR ''a'') \<and>
   length ''Done. See the file'' = 18 \<and>
   last_line ''Done. See the file'' = ''Done. See the file'' \<and>
   extract_summary (transcript_world short_line_record short_line_entry)
     (JStr ''transcript.jsonl'') = Inr ''Done.''"
  by code_simp

text \<open>
  Claim C2, amended. For every transcript whose scan captures a non-empty assistant text:
  when the last non-empty line has more than 150 characters, the summary is that line cut
  just after its first period if that period is at an index from 1 to 149, and else its
  first 150 characters; when the line has at most 150 characters and its first period, if
  any, is its first or its last character, the summary is the line unchanged. Nothing is
  said of a shorter line with a period inside it.
\<close>

theorem extract_summary_last_line:
  assumes "open_text w p = Inr (lines, None)"
      and "scan_lines w lines (JStr []) = Inr (JStr s)"
      and "s \<noteq> []"
      and "150 < length (last_line s) \<or> str_find (last_line s) CHR ''.'' \<le> 0 \<or>
           str_find (last_line s) CHR ''.'' = int (length (last_line s)) - 1"
  shows "extract_summary w p =
     Inr (if 150 < length (last_line s)
          then (if 0 < str_find (last_line s) CHR ''.'' \<and> str_find (last_line s) CHR ''.'' < 150
                then take (nat (str_find (last_line s) CHR ''.'' + 1)) (last_line s)
                else take 150 (last_line s))
          else last_line s)"
proof -
  let ?L = "last_line s"
  let ?p = "str_find ?L CHR ''.''"
  have e: "extract_summary w p = last_snippet (JStr s)"
    using assms(1,2) by (simp add: extract_summary_def last_snippet_eq [OF assms(3)])
  have b: "-1 \<le> ?p \<and> ?p < int (length ?L)" by (rule str_find_bounds)
  show ?thesis
  proof (cases "150 < length ?L")
    case True
    then show ?thesis
      using b by (simp add: e last_snippet_eq [OF assms(3)] slice_to_def)
  next
    case False
    with assms(4) b show ?thesis
      by (auto simp: e last_snippet_eq [OF assms(3)] slice_to_def)
  qed
qed

lemma long_line_facts:
  "open_text (transcript_world (text_record long_line) (text_entry long_line))
     (JStr ''transcript.jsonl'') = Inr ([text_record long_line @ [CHR 0x0A]], None)"
  "scan_lines (transcript_world (text_record long_line) (text_entry long_line))
     [text_record long_line @ [CHR 0x0A]] (JStr []) = Inr (JStr long_line)"
  "long_line \<noteq> []"
  "150 < length (last_line long_line)"
  "str_find (last_line long_line) CHR ''.'' = 4"
  "take 5 (last_line long_line) = ''Done.''"
  by code_simp+

theorem extract_summary_last_line_witness:
  "150 < length (last_line long_line) \<and>
   str_find (last_line long_line) CHR ''.'' = 4 \<and>
   extract_summary (transcript_world (text_record long_line) (text_entry long_line))
     (JStr ''transcript.jsonl'') = Inr ''Done.''"
  using extract_summary_last_line [OF long_line_facts(1,2,3)]
  by (simp add: long_line_facts)

section \<open>Loading the configuration\<close>

text \<open>
  Claim C4. The claim is that \<open>load_config\<close> never raises, whatever the state of the
  configuration file. On a file that exists and cannot be read (an \<open>OSError\<close> that is
  not \<open>FileNotFoundError\<close>, such as \<open>PermissionError\<close>), the exception leaves
  \<open>load_config\<close> and nothing is printed.
\<close>

theorem load_config_unreadable_raises:
  "load_config (quiet_world\<lparr>config_read := Inl (Exn OSError ''Permission denied'')\<rparr>) =
     (Inl (Exn OSError ''Permission denied''), [])"
  by code_simp

section \<open>The exit code\<close>

lemma main_playback_error:
  "main ((example_world prompt_input prompt_event empty_conf (JObj []))
           \<lparr>playback := Some (Exn RuntimeError ''MCI error 263'')\<rparr>) =
     (Inl (Exn RuntimeError ''MCI error 263''),
      \<lparr>stderr = [], log_file = [], spoken = [JStr ''On it.''],
         synthesized = [JStr ''On it.''], played = 1\<rparr>)"
  by code_simp

lemma main_malformed_input:
  "main (quiet_world\<lparr>stdin := ''{oops''\<rparr>) =
     (Inl (Exn JSONDecodeError ''Expecting value''), no_effects)"
  by code_simp

lemma main_synthesis_error:
  "fst (main ((example_world prompt_input prompt_event empty_conf (JObj []))
           \<lparr>synthesize := (\<lambda>text voice rate volume pitch.
                Some (Exn Exception ''No audio was received''))\<rparr>)) =
     Inl (Exn Exception ''No audio was received'')"
  by code_simp

text \<open>
  Claim C3. Whatever the input, the exit code of the process is 0, and an exception that
  leaves \<open>main\<close> (malformed JSON on standard input, a synthesis error, a playback error,
  or any other) is caught and its message printed to standard error.
\<close>

theorem run_exit_code_zero:
  "snd (run w) = 0 \<and>
   (\<forall>e eff. main w = (Inl e, eff) \<longrightarrow>
      stderr (fst (run w)) = stderr eff @ [''claudevoice error: '' @ exn_message e]) \<and>
   (\<forall>m. strip (stdin w) \<noteq> [] \<and> json_loads w (stdin w) = Inl m \<longrightarrow>
      run w = (no_effects\<lparr>stderr := [''claudevoice error: '' @ m]\<rparr>, 0))"
proof -
  have "snd (run w) = 0"
    by (simp add: run_def split: prod.splits sum.splits)
  moreover have "stderr (fst (run w)) = stderr eff @ [''claudevoice error: '' @ exn_message e]"
    if "main w = (Inl e, eff)" for e eff
    using that by (simp add: run_def)
  moreover have "run w = (no_effects\<lparr>stderr := [''claudevoice error: '' @ m]\<rparr>, 0)"
    if "strip (stdin w) \<noteq> [] \<and> json_loads w (stdin w) = Inl m" for m
    using that by (simp add: run_def main_def read_event_def no_effects_def)
  ultimately show ?thesis by blast
qed

theorem run_exit_code_zero_witness:
  "main ((example_world prompt_input prompt_event empty_conf (JObj []))
           \<lparr>playback := Some (Exn RuntimeError ''MCI error 263'')\<rparr>) =
     (Inl (Exn RuntimeError ''MCI error 263''),
      \<lparr>stderr = [], log_file = [], spoken = [JStr ''On it.''],
         synthesized = [JStr ''On it.''], played = 1\<rparr>) \<and>
   snd (run ((example_world prompt_input prompt_event empty_conf (JObj []))
               \<lparr>playback := Some (Exn RuntimeError ''MCI error 263'')\<rparr>)) = 0 \<and>
   stderr (fst (run ((example_world prompt_input prompt_event empty_conf (JObj []))
               \<lparr>playback := Some (Exn RuntimeError ''MCI error 263'')\<rparr>))) =
     [''claudevoice error: MCI error 263'']"
  using run_exit_code_zero [of "(example_world prompt_input prompt_event empty_conf (JObj []))
               \<lparr>playback := Some (Exn RuntimeError ''MCI error 263'')\<rparr>"]
    main_playback_error
  by simp

section \<open>When the entry point speaks\<close>

lemma spoken_speak: "spoken (snd (speak w text config eff)) = spoken eff @ [text]"
  unfolding speak_def Let_def
  by (cases "speech_setup w"; cases config; simp split: option.splits)

lemma spoken_debug_log: "spoken (debug_log w event eff) = spoken eff"
  by (simp add: debug_log_def)

lemma main_reaches_speech:
  assumes "read_event w = Inr event"
      and "load_config w = (Inr (JObj cf), printed)"
      and "truthy (dict_lookup cf ''enabled'' (JBool True))"
      and "resolve_message w event (JObj cf) = Inr r"
  shows "main w = (if truthy r then speak w r (JObj cf) (before_speech w event cf printed)
                   else (Inr (), before_speech w event cf printed))"
  unfolding main_def using assms by (simp add: dict_get_def before_speech_def Let_def)

text \<open>
  Claim C9, as stated, fails: with the template \<open>prompt_submit\<close> bound to the number 5 in
  \<open>config.json\<close>, \<open>resolve_message\<close> returns 5, which is not a non-empty string, and
  \<open>main\<close> calls \<open>speak\<close> and the synthesizer with it.
\<close>

theorem main_speaks_a_number:
  "read_event (example_world prompt_input prompt_event number_conf number_config) =
     Inr prompt_event \<and>
   load_config (example_world prompt_input prompt_event number_conf number_config) =
     (Inr number_config, []) \<and>
   resolve_message (example_world prompt_input prompt_event number_conf number_config)
     prompt_event number_config = Inr (JInt 5) \<and>
   spoken (snd (main (example_world prompt_input prompt_event number_conf number_config))) =
     [JInt 5] \<and>
   synthesized (snd (main (example_world prompt_input prompt_event number_conf number_config))) =
     [JInt 5]"
  by code_simp

text \<open>
  Claim C9, amended. When \<open>main\<close> reaches the resolver (the event is read, the
  configuration is a mapping and enabled) and \<open>resolve_message\<close> returns \<open>r\<close>, \<open>main\<close>
  calls \<open>speak\<close> (synthesis, then playback) exactly when \<open>r\<close> is true in a condition, and
  then once, with \<open>r\<close>. Otherwise it returns without any further effect. For a result that
  is a string or \<open>None\<close>, \<open>speak\<close> is called if and only if \<open>r\<close> is a non-empty string:
  the empty string does what \<open>None\<close> does.
\<close>

theorem main_speaks_iff_truthy:
  assumes "read_event w = Inr event"
      and "load_config w = (Inr (JObj cf), printed)"
      and "truthy (dict_lookup cf ''enabled'' (JBool True))"
      and "resolve_message w event (JObj cf) = Inr r"
  shows "(spoken (snd (main w)) = (if truthy r then [r] else [])) \<and>
         (truthy r \<or> main w = (Inr (), before_speech w event cf printed)) \<and>
         (r = JNull \<or> (\<exists>s. r = JStr s) \<longrightarrow>
            (spoken (snd (main w)) \<noteq> [] \<longleftrightarrow> (\<exists>s. r = JStr s \<and> s \<noteq> [])))"
proof -
  have sp0: "spoken (before_speech w event cf printed) = []"
    by (simp add: before_speech_def spoken_debug_log no_effects_def)
  have m: "main w = (if truthy r then speak w r (JObj cf) (before_speech w event cf printed)
                   else (Inr (), before_speech w event cf printed))"
    using assms by (rule main_reaches_speech)
  have a: "spoken (snd (main w)) = (if truthy r then [r] else [])"
    by (simp add: m spoken_speak sp0)
  have b: "truthy r \<or> main w = (Inr (), before_speech w event cf printed)"
    by (simp add: m)
  have c: "r = JNull \<or> (\<exists>s. r = JStr s) \<longrightarrow>
            (spoken (snd (main w)) \<noteq> [] \<longleftrightarrow> (\<exists>s. r = JStr s \<and> s \<noteq> []))"
    unfolding a by (cases r) simp_all
  from a b c show ?thesis by blast
qed

lemma bare_world_facts:
  "read_event (example_world stop_input stop_event bare_conf bare_config) = Inr stop_event"
  "load_config (example_world stop_input stop_event bare_conf bare_config) =
     (Inr (JObj [(''messages'', JObj [(''stop'', JStr ''{summary}'')])]), [])"
  "truthy (dict_lookup [(''messages'', JObj [(''stop'', JStr ''{summary}'')])]
     ''enabled'' (JBool True))"
  "resolve_message (example_world stop_input stop_event bare_conf bare_config) stop_event
     (JObj [(''messages'', JObj [(''stop'', JStr ''{summary}'')])]) = Inr (JStr [])"
  by code_simp+

theorem main_speaks_iff_truthy_witness:
  "resolve_message (example_world stop_input stop_event bare_conf bare_config) stop_event
     (JObj [(''messages'', JObj [(''stop'', JStr ''{summary}'')])]) = Inr (JStr []) \<and>
   spoken (snd (main (example_world stop_input stop_event bare_conf bare_config))) = [] \<and>
   main (example_world stop_input stop_event bare_conf bare_config) = (Inr (), no_effects)"
  using main_speaks_iff_truthy [OF bare_world_facts]
  by (simp add: bare_world_facts before_speech_def dict_lookup_def no_effects_def)

section \<open>A messages mapping with missing keys\<close>

lemma overlay_prompt_submit:
  "dict_lookup (code_overlay w ev ms) ''prompt_submit'' (JStr ''On it.'') =
   dict_lookup ms ''prompt_submit'' (JStr ''On it.'')"
  by (simp add: code_overlay_def notification_key_def inline_defaults_def
      dict_lookup_append dict_lookup_Cons dict_lookup_Nil dict_lookup_self)

lemma overlay_stop:
  "dict_lookup (code_overlay w ev ms) ''stop'' (JStr ''Done. {summary}'') =
   dict_lookup ms ''stop'' (JStr ''Done. {summary}'')"
  by (simp add: code_overlay_def notification_key_def inline_defaults_def
      dict_lookup_append dict_lookup_Cons dict_lookup_Nil dict_lookup_self)

lemma overlay_notification_default:
  "dict_lookup (code_overlay w ev ms) ''notification_default'' (JStr ''{message}'') =
   dict_lookup ms ''notification_default'' (JStr ''{message}'')"
proof (cases "map_of ms ''notification_default''")
  case None
  then have "dict_lookup ms ''notification_default'' (JStr ''{message}'') = JStr ''{message}''"
    by (simp add: dict_lookup_def)
  with None show ?thesis
    by (simp add: code_overlay_def inline_defaults_def
        dict_lookup_append dict_lookup_Cons dict_lookup_Nil)
next
  case (Some v)
  then show ?thesis
    by (simp add: code_overlay_def dict_lookup_append) (simp add: dict_lookup_def)
qed

lemma overlay_notification_key:
  "dict_lookup (code_overlay w ev ms) (notification_key w ev) d =
   dict_lookup ms (notification_key w ev)
     (dict_lookup ms ''notification_default'' (JStr ''{message}''))"
  by (simp add: code_overlay_def inline_defaults_def
      dict_lookup_append dict_lookup_Cons dict_lookup_Nil dict_lookup_self)

text \<open>
  Claim C5, as stated, fails: for a Notification of sub-type \<open>idle_prompt\<close> under an empty
  \<open>messages\<close> mapping the code returns the event's message (here the default
  \<open>Notification\<close>), where the overlay of the built-in mapping gives
  \<open>Waiting for your input.\<close>
\<close>

theorem idle_prompt_not_overlaid:
  "resolve_message quiet_world (JObj idle_items) (JObj [(''messages'', JObj [])]) =
     Inr (JStr ''Notification'') \<and>
   resolve_message quiet_world (JObj idle_items) (JObj [(''messages'', overlay_defaults [])]) =
     Inr (JStr ''Waiting for your input.'')"
  by code_simp

text \<open>
  Claim C5, amended. For every configuration with a \<open>messages\<close> mapping, \<open>resolve_message\<close>
  behaves as if a missing \<open>prompt_submit\<close>, \<open>stop\<close> or \<open>notification_default\<close> key were
  bound to its built-in default template, and a missing key of the notification sub-type
  to the \<open>notification_default\<close> template (the configured one, or else the built-in
  \<open>{message}\<close>).
\<close>

theorem resolve_message_missing_keys:
  assumes "map_of cf ''messages'' = Some (JObj ms)"
  shows "resolve_message w (JObj ev) (JObj cf) =
         resolve_message w (JObj ev)
           (JObj ((''messages'', JObj (code_overlay w ev ms)) # cf))"
proof -
  have m: "dict_lookup cf ''messages'' DEFAULT_MESSAGES = JObj ms"
    using assms by (simp add: dict_lookup_def)
  have stop: "resolve_stop w (JObj ev) (JObj (code_overlay w ev ms)) =
              resolve_stop w (JObj ev) (JObj ms)"
    by (simp add: resolve_stop_def dict_get_JObj overlay_stop)
  have notif: "resolve_notification w (JObj ev) (JObj (code_overlay w ev ms)) =
               resolve_notification w (JObj ev) (JObj ms)"
    using overlay_notification_key [of w ev ms]
    by (simp add: resolve_notification_def dict_get_JObj overlay_notification_default
        notification_key_def Let_def)
  show ?thesis
    by (simp add: resolve_message_def dict_get_JObj dict_lookup_Cons m stop notif
        overlay_prompt_submit)
qed

lemma idle_prompt_empty_messages:
  "resolve_message quiet_world (JObj idle_items) (JObj [(''messages'', JObj [])]) =
     Inr (JStr ''Notification'')"
  "code_overlay quiet_world idle_items [] =
     [(''notification_idle_prompt'', JStr ''{message}''),
      (''prompt_submit'', JStr ''On it.''),
      (''stop'', JStr ''Done. {summary}''),
      (''notification_default'', JStr ''{message}'')]"
  by code_simp+

theorem resolve_message_missing_keys_witness:
  "map_of [(''messages'', JObj [])] ''messages'' = Some (JObj []) \<and>
   resolve_message quiet_world (JObj idle_items)
     (JObj [(''messages'', JObj
        [(''notification_idle_prompt'', JStr ''{message}''),
         (''prompt_submit'', JStr ''On it.''),
         (''stop'', JStr ''Done. {summary}''),
         (''notification_default'', JStr ''{message}'')]),
       (''messages'', JObj [])]) = Inr (JStr ''Notification'')"
  using resolve_message_missing_keys [of "[(''messages'', JObj [])]" "[]" quiet_world idle_items]
  by (simp add: idle_prompt_empty_messages)

section \<open>When the resolver returns\<close>

lemma is_strE: "is_str v \<Longrightarrow> (\<And>s. v = JStr s \<Longrightarrow> P) \<Longrightarrow> P"
  by (cases v) (simp_all add: is_str_def)

lemma is_str_JStr [simp]: "is_str (JStr s)"
  by (simp add: is_str_def)

lemma scan_blocks_ok:
  "list_all wf_block blocks \<Longrightarrow> is_str last_text \<Longrightarrow> scan_ok (scan_blocks blocks last_text)"
proof (induction blocks arbitrary: last_text)
  case Nil
  then show ?case by (simp add: scan_ok_def)
next
  case (Cons block blocks)
  from Cons.prems(1) have wb: "wf_block block" and rest: "list_all wf_block blocks"
    by simp_all
  from wb obtain kvs where b: "block = JObj kvs"
    by (cases block) (simp_all add: wf_block_def)
  show ?case
  proof (cases "dict_lookup kvs ''type'' JNull = JStr ''text''")
    case False
    with b show ?thesis using Cons.IH [OF rest Cons.prems(2)] by simp
  next
    case True
    with wb b have sa: "str_or_absent kvs ''text''" by (simp add: wf_block_def)
    show ?thesis
    proof (cases "map_of kvs ''text''")
      case None
      with b True show ?thesis
        by (simp add: dict_item_def scan_ok_def summary_catches_def)
    next
      case (Some v)
      with sa have "is_str v" by (simp add: str_or_absent_def)
      with Some b True show ?thesis using Cons.IH [OF rest, of v]
        by (simp add: dict_item_def)
    qed
  qed
qed

lemma scan_entry_ok:
  assumes "wf_entry entry" and "is_str last_text"
  shows "scan_ok (scan_entry entry last_text)"
proof -
  from assms(1) obtain kvs where e: "entry = JObj kvs"
    by (cases entry) (simp_all add: wf_entry_def)
  show ?thesis
  proof (cases "dict_lookup kvs ''type'' JNull = JStr ''assistant''")
    case False
    with e assms(2) show ?thesis
      by (simp add: scan_entry_def dict_get_JObj scan_ok_def)
  next
    case True
    with assms(1) e obtain mk where m: "dict_lookup kvs ''message'' (JObj []) = JObj mk"
      by (cases "dict_lookup kvs ''message'' (JObj [])") (simp_all add: wf_entry_def)
    with assms(1) e True obtain blocks
      where c: "dict_lookup mk ''content'' (JArr []) = JArr blocks"
      by (cases "dict_lookup mk ''content'' (JArr [])") (simp_all add: wf_entry_def)
    from assms(1) e True m c have "list_all wf_block blocks"
      by (simp add: wf_entry_def)
    then have "scan_ok (scan_blocks blocks last_text)"
      using assms(2) by (rule scan_blocks_ok)
    with e True m c show ?thesis
      by (simp add: scan_entry_def dict_get_JObj py_iter_def)
  qed
qed

lemma scan_lines_ok:
  "list_all (wf_line w) lines \<Longrightarrow> is_str last_text \<Longrightarrow> scan_ok (scan_lines w lines last_text)"
proof (induction lines arbitrary: last_text)
  case Nil
  then show ?case by (simp add: scan_ok_def)
next
  case (Cons line lines)
  from Cons.prems(1) have wl: "wf_line w line" and rest: "list_all (wf_line w) lines"
    by simp_all
  show ?case
  proof (cases "strip line = []")
    case True
    then show ?thesis using Cons.IH [OF rest Cons.prems(2)] by simp
  next
    case False
    show ?thesis
    proof (cases "json_loads w (strip line)")
      case (Inl m)
      with False show ?thesis by (simp add: scan_ok_def summary_catches_def)
    next
      case (Inr entry)
      with wl False have "wf_entry entry" by (simp add: wf_line_def)
      then have ok: "scan_ok (scan_entry entry last_text)"
        using Cons.prems(2) by (rule scan_entry_ok)
      show ?thesis
      proof (cases "scan_entry entry last_text")
        case (Inl e)
        with ok Inr False show ?thesis by (simp add: scan_ok_def)
      next
        case (Inr v)
        with ok have "is_str v" by (simp add: scan_ok_def)
        from Cons.IH [OF rest this] Inr \<open>json_loads w (strip line) = Inr entry\<close> False
        show ?thesis by simp
      qed
    qed
  qed
qed

lemma last_snippet_returns: "is_str v \<Longrightarrow> \<exists>s. last_snippet v = Inr s"
  by (erule is_strE) (simp add: last_snippet_def Let_def)

lemma extract_summary_returns:
  assumes "readable_transcript w p"
  shows "\<exists>s. extract_summary w p = Inr s"
proof (cases "open_text w p")
  case (Inl e)
  with assms have "summary_catches e" by (simp add: readable_transcript_def)
  with Inl show ?thesis by (simp add: extract_summary_def summary_catches_def)
next
  case (Inr opened)
  obtain lines read_error where o: "opened = (lines, read_error)" by (cases opened)
  from assms Inr o have wl: "list_all (wf_line w) lines"
    and re: "case read_error of None \<Rightarrow> True | Some e \<Rightarrow> summary_catches e"
    by (simp_all add: readable_transcript_def)
  have ok: "scan_ok (scan_lines w lines (JStr []))"
    using wl by (rule scan_lines_ok) simp
  show ?thesis
  proof (cases "scan_lines w lines (JStr [])")
    case (Inl e)
    with ok have "summary_catches e" by (simp add: scan_ok_def)
    with Inl Inr o show ?thesis by (simp add: extract_summary_def summary_catches_def)
  next
    case scanned: (Inr v)
    with ok have v: "is_str v" by (simp add: scan_ok_def)
    show ?thesis
    proof (cases read_error)
      case None
      from last_snippet_returns [OF v] obtain s where "last_snippet v = Inr s" ..
      with None scanned Inr o show ?thesis by (simp add: extract_summary_def)
    next
      case (Some e)
      with re have "summary_catches e" by simp
      with Some scanned Inr o show ?thesis
        by (simp add: extract_summary_def summary_catches_def)
    qed
  qed
qed

lemma dict_lookup_is_str:
  assumes "list_all (\<lambda>kv. is_str (snd kv)) ms" and "is_str d"
  shows "is_str (dict_lookup ms k d)"
proof (cases "map_of ms k")
  case None
  with assms(2) show ?thesis by (simp add: dict_lookup_def)
next
  case (Some v)
  then have "(k, v) \<in> set ms" by (rule map_of_SomeD)
  with assms(1) have "is_str v" by (auto simp: list_all_iff)
  with Some show ?thesis by (simp add: dict_lookup_def)
qed

lemma str_or_absent_lookup:
  "str_or_absent kvs k \<Longrightarrow> is_str d \<Longrightarrow> is_str (dict_lookup kvs k d)"
  by (simp add: str_or_absent_def dict_lookup_def split: option.splits)

lemma replace_method_str:
  "is_str t \<Longrightarrow> is_str n \<Longrightarrow> \<exists>s. replace_method t old n = Inr s"
  by (elim is_strE) (simp add: replace_method_def)

lemma resolve_notification_returns:
  assumes "list_all (\<lambda>kv. is_str (snd kv)) ms" and "str_or_absent ev ''message''"
  shows "\<exists>s. resolve_notification w (JObj ev) (JObj ms) = Inr (JStr s)"
proof -
  let ?key = "''notification_'' @ py_format w (dict_lookup ev ''notification_type'' (JStr []))"
  let ?fallback = "dict_lookup ms ''notification_default'' (JStr ''{message}'')"
  have "is_str ?fallback"
    using assms(1) by (rule dict_lookup_is_str) simp
  with assms(1) have "is_str (dict_lookup ms ?key ?fallback)"
    by (rule dict_lookup_is_str)
  moreover have "is_str (dict_lookup ev ''message'' (JStr ''Notification''))"
    using assms(2) by (rule str_or_absent_lookup) simp
  ultimately obtain s where
    "replace_method (dict_lookup ms ?key ?fallback) ''{message}''
       (dict_lookup ev ''message'' (JStr ''Notification'')) = Inr s"
    using replace_method_str by blast
  then show ?thesis
    by (simp add: resolve_notification_def dict_get_JObj Let_def)
qed

lemma resolve_stop_returns:
  assumes ms: "list_all (\<lambda>kv. is_str (snd kv)) ms"
      and sm: "str_or_absent ev ''transcript_summary''"
      and rd: "\<not> truthy (dict_lookup ev ''transcript_summary'' (JStr [])) \<Longrightarrow>
               truthy (dict_lookup ev ''transcript_path'' (JStr [])) \<Longrightarrow>
               readable_transcript w (dict_lookup ev ''transcript_path'' (JStr []))"
  shows "\<exists>s. resolve_stop w (JObj ev) (JObj ms) = Inr (JStr s)"
proof -
  let ?template = "dict_lookup ms ''stop'' (JStr ''Done. {summary}'')"
  let ?summary = "dict_lookup ev ''transcript_summary'' (JStr [])"
  let ?path = "dict_lookup ev ''transcript_path'' (JStr [])"
  have t: "is_str ?template" using ms by (rule dict_lookup_is_str) simp
  have s0: "is_str ?summary" using sm by (rule str_or_absent_lookup) simp
  have render: "\<exists>s. (case (if \<not> truthy v
            then (case replace_method ?template ''{summary}'' (JStr []) of
                    Inl e \<Rightarrow> Inl e
                  | Inr t \<Rightarrow> Inr (strip t))
            else replace_method ?template ''{summary}'' v) of
        Inl e \<Rightarrow> Inl e
      | Inr text \<Rightarrow> Inr (JStr (truncate' text MAX_MESSAGE_LENGTH))) = Inr (JStr s)"
    if "is_str v" for v
  proof -
    from replace_method_str [OF t that] obtain a
      where a: "replace_method ?template ''{summary}'' v = Inr a" by blast
    from replace_method_str [OF t, of "JStr []"] obtain b
      where b: "replace_method ?template ''{summary}'' (JStr []) = Inr b" by auto
    show ?thesis by (simp add: a b)
  qed
  show ?thesis
  proof (cases "truthy ?summary")
    case True
    with render [OF s0] show ?thesis
      by (simp add: resolve_stop_def dict_get_JObj)
  next
    case False
    show ?thesis
    proof (cases "truthy ?path")
      case nopath: False
      with False render [OF s0] show ?thesis
        by (simp add: resolve_stop_def dict_get_JObj)
    next
      case True
      from rd [OF False True] have "\<exists>s. extract_summary w ?path = Inr s"
        by (rule extract_summary_returns)
      then obtain x where x: "extract_summary w ?path = Inr x" ..
      from render [of "JStr x"] False True x show ?thesis
        by (simp add: resolve_stop_def dict_get_JObj)
    qed
  qed
qed

text \<open>
  Claim C1, as stated, fails. A Notification event whose \<open>message\<close> is \<open>null\<close> makes
  \<open>str.replace\<close> raise \<open>TypeError\<close>, and a Stop event whose transcript has a line that
  parses to a list makes \<open>entry.get\<close> raise \<open>AttributeError\<close>, which
  \<open>_extract_summary\<close> does not catch; both leave \<open>resolve_message\<close>.
\<close>

theorem resolve_message_raises:
  "resolve_message quiet_world
     (JObj [(''hook_event_name'', JStr ''Notification''), (''message'', JNull)]) (JObj []) =
     Inl (Exn TypeError ''replace() argument 2 must be str, not NoneType'') \<and>
   resolve_message (transcript_world ''[]'' (JArr []))
     (JObj [(''hook_event_name'', JStr ''Stop''),
            (''transcript_path'', JStr ''transcript.jsonl'')]) (JObj []) =
     Inl (no_attribute (JArr []) ''get'')"
  by code_simp

text \<open>
  Claim C1, amended. For every event mapping whose \<open>transcript_summary\<close> and \<open>message\<close>,
  where present, are strings, and every configuration mapping whose \<open>messages\<close> entry is
  absent or a mapping to strings, \<open>resolve_message\<close> returns: a string when the event
  kind has a rule (UserPromptSubmit, Notification, or Stop without the active flag), and
  \<open>None\<close> otherwise; provided that the transcript, when the Stop branch reads it, cannot
  be opened or is well formed. Nothing is said of a transcript with other lines.
\<close>

theorem resolve_message_returns:
  assumes "dict_lookup cf ''messages'' DEFAULT_MESSAGES = JObj ms"
      and "list_all (\<lambda>kv. is_str (snd kv)) ms"
      and "str_or_absent ev ''transcript_summary''"
      and "str_or_absent ev ''message''"
      and "reads_transcript ev \<Longrightarrow>
           readable_transcript w (dict_lookup ev ''transcript_path'' (JStr []))"
  shows "\<exists>r. resolve_message w (JObj ev) (JObj cf) = Inr r \<and>
             (if has_rule ev then is_str r else r = JNull)"
proof -
  let ?kind = "dict_lookup ev ''hook_event_name'' (JStr [])"
  have ups: "is_str (dict_lookup ms ''prompt_submit'' (JStr ''On it.''))"
    using assms(2) by (rule dict_lookup_is_str) simp
  consider (prompt) "?kind = JStr ''UserPromptSubmit''"
    | (active) "?kind = JStr ''Stop''" "truthy (dict_lookup ev ''stop_hook_active'' (JBool False))"
    | (stop) "?kind = JStr ''Stop''" "\<not> truthy (dict_lookup ev ''stop_hook_active'' (JBool False))"
    | (notification) "?kind = JStr ''Notification''"
    | (other) "?kind \<noteq> JStr ''UserPromptSubmit''" "?kind \<noteq> JStr ''Stop''"
        "?kind \<noteq> JStr ''Notification''"
    by blast
  then show ?thesis
  proof cases
    case prompt
    with ups assms(1) show ?thesis
      by (simp add: resolve_message_def dict_get_JObj has_rule_def)
  next
    case active
    with assms(1) show ?thesis
      by (simp add: resolve_message_def dict_get_JObj has_rule_def)
  next
    case stop
    have "\<exists>s. resolve_stop w (JObj ev) (JObj ms) = Inr (JStr s)"
      using assms(2,3)
    proof (rule resolve_stop_returns)
      assume "\<not> truthy (dict_lookup ev ''transcript_summary'' (JStr []))"
        and "truthy (dict_lookup ev ''transcript_path'' (JStr []))"
      with stop have "reads_transcript ev" by (simp add: reads_transcript_def)
      then show "readable_transcript w (dict_lookup ev ''transcript_path'' (JStr []))"
        by (rule assms(5))
    qed
    with stop assms(1) show ?thesis
      by (auto simp: resolve_message_def dict_get_JObj has_rule_def)
  next
    case notification
    from resolve_notification_returns [OF assms(2,4), of w] notification assms(1)
    show ?thesis
      by (auto simp: resolve_message_def dict_get_JObj has_rule_def)
  next
    case other
    with assms(1) show ?thesis
      by (simp add: resolve_message_def dict_get_JObj has_rule_def)
  qed
qed

lemma stop_transcript_facts:
  "dict_lookup [] ''messages'' DEFAULT_MESSAGES = JObj default_message_items"
  "list_all (\<lambda>kv. is_str (snd kv)) default_message_items"
  "str_or_absent stop_path_items ''transcript_summary''"
  "str_or_absent stop_path_items ''message''"
  "readable_transcript (transcript_world short_line_record short_line_entry)
     (dict_lookup stop_path_items ''transcript_path'' (JStr []))"
  "reads_transcript stop_path_items"
  "has_rule stop_path_items"
  "resolve_message (transcript_world short_line_record short_line_entry)
     (JObj stop_path_items) (JObj []) = Inr (JStr ''Done. Done.'')"
  by code_simp+

theorem resolve_message_returns_witness:
  "reads_transcript stop_path_items \<and>
   readable_transcript (transcript_world short_line_record short_line_entry)
     (dict_lookup stop_path_items ''transcript_path'' (JStr [])) \<and>
   has_rule stop_path_items \<and>
   resolve_message (transcript_world short_line_record short_line_entry)
     (JObj stop_path_items) (JObj []) = Inr (JStr ''Done. Done.'')"
  using resolve_message_returns [of "[]" default_message_items stop_path_items
      "transcript_world short_line_record short_line_entry"]
  by (simp add: stop_transcript_facts)

section \<open>Template rendering\<close>

lemma placeholderE:
  assumes "placeholder u"
  obtains n where "u = CHR ''{'' # n @ [CHR ''}'']" "CHR ''{'' \<notin> set n" "CHR ''}'' \<notin> set n"
proof -
  from assms obtain r where u: "u = CHR ''{'' # r" and r: "r \<noteq> []" "last r = CHR ''}''"
    "CHR ''{'' \<notin> set r" "CHR ''}'' \<notin> set (butlast r)"
    by (cases u) (auto simp: placeholder_def)
  from r(1,2) have "r = butlast r @ [CHR ''}'']"
    by (metis append_butlast_last_id)
  moreover from r(3) have "CHR ''{'' \<notin> set (butlast r)"
    by (auto dest: in_set_butlastD)
  ultimately show thesis using u r(4) that by metis
qed

lemma str_join_Cons: "segs \<noteq> [] \<Longrightarrow> str_join sep (x # segs) = x @ sep @ str_join sep segs"
  by (cases segs) simp_all

lemma str_join_hd: "str_join sep (x # segs) = x @ (if segs = [] then [] else sep @ str_join sep segs)"
  by (cases segs) simp_all

lemma str_replace_segments:
  "old \<noteq> [] \<Longrightarrow>
   \<exists>segs. segs \<noteq> [] \<and> s = str_join old segs \<and> str_replace s old new = str_join new segs \<and>
          list_all (\<lambda>seg. \<not> sublist old seg) segs"
proof (induction s old new rule: str_replace.induct)
  case (1 old new)
  then have "[[]] \<noteq> [] \<and> [] = str_join old [[]] \<and> str_replace [] old new = str_join new [[]] \<and>
          list_all (\<lambda>seg. \<not> sublist old seg) [[]]"
    by simp
  then show ?case by blast
next
  case (2 c cs old new)
  note nonempty = \<open>old \<noteq> []\<close>
  show ?case
  proof (cases "prefix old (c # cs)")
    case True
    let ?rest = "drop (length old) (c # cs)"
    from "2.IH"(2) [OF nonempty True nonempty] obtain segs where segs: "segs \<noteq> []"
      "?rest = str_join old segs"
      "str_replace ?rest old new = str_join new segs"
      "list_all (\<lambda>seg. \<not> sublist old seg) segs"
      by blast
    from True have whole: "c # cs = old @ ?rest"
      by (metis append_eq_conv_conj prefixE)
    have step: "str_replace (c # cs) old new = new @ str_replace ?rest old new"
      using nonempty True by simp
    have a: "c # cs = str_join old ([] # segs)"
      using whole segs(2) str_join_Cons [OF segs(1), of old "[]"] by simp
    have b: "str_replace (c # cs) old new = str_join new ([] # segs)"
      using step segs(3) str_join_Cons [OF segs(1), of new "[]"] by simp
    have c: "list_all (\<lambda>seg. \<not> sublist old seg) ([] # segs)"
      using segs(4) nonempty by simp
    from a b c show ?thesis by blast
  next
    case False
    from "2.IH"(3) [OF nonempty False nonempty] obtain segs where segs: "segs \<noteq> []"
      "cs = str_join old segs"
      "str_replace cs old new = str_join new segs"
      "list_all (\<lambda>seg. \<not> sublist old seg) segs"
      by blast
    from segs(1) obtain s0 ss where ss: "segs = s0 # ss" by (cases segs) auto
    have step: "str_replace (c # cs) old new = c # str_replace cs old new"
      using nonempty False by simp
    have "prefix (c # s0) (c # cs)"
      using segs(2) ss by (simp add: str_join_hd)
    with False have "\<not> prefix old (c # s0)"
      using prefix_order.trans by blast
    with segs(4) ss have c: "list_all (\<lambda>seg. \<not> sublist old seg) ((c # s0) # ss)"
      by (simp add: sublist_Cons_right)
    have a: "c # cs = str_join old ((c # s0) # ss)"
      using segs(2) ss by (simp add: str_join_hd)
    have b: "str_replace (c # cs) old new = str_join new ((c # s0) # ss)"
      using step segs(3) ss by (simp add: str_join_hd)
    from a b c show ?thesis by blast
  qed
qed

lemma prefix_before_brace:
  assumes "c0 \<notin> set (tl old)" and "r = [] \<or> hd r = c0" and "x \<noteq> []"
      and "prefix old (x @ r)"
  shows "prefix old x"
proof -
  from assms(4) consider "prefix old x" | us where "old = x @ us" "prefix us r"
    by (auto simp: prefix_append)
  then show ?thesis
  proof cases
    case 1
    then show ?thesis .
  next
    case 2
    show ?thesis
    proof (cases us)
      case Nil
      with 2 show ?thesis by simp
    next
      case (Cons y ys)
      with 2(2) have "r \<noteq> []" "hd r = y" by (auto simp: prefix_def)
      with assms(2) have "y = c0" by auto
      moreover from 2(1) assms(3) Cons have "y \<in> set (tl old)" by (cases x) auto
      ultimately show ?thesis using assms(1) by simp
    qed
  qed
qed

lemma str_replace_before_brace:
  "old \<noteq> [] \<Longrightarrow> c0 \<notin> set (tl old) \<Longrightarrow> r = [] \<or> hd r = c0 \<Longrightarrow>
   str_replace (a @ r) old new = str_replace a old new @ str_replace r old new"
proof (induction a old new rule: str_replace.induct)
  case (1 old new)
  then show ?case by simp
next
  case (2 c cs old new)
  note nonempty = \<open>old \<noteq> []\<close>
  have iff: "prefix old ((c # cs) @ r) \<longleftrightarrow> prefix old (c # cs)"
  proof
    assume "prefix old ((c # cs) @ r)"
    with "2.prems"(2,3) show "prefix old (c # cs)"
      by (intro prefix_before_brace [of c0 old r "c # cs"]) simp_all
  next
    assume "prefix old (c # cs)"
    then show "prefix old ((c # cs) @ r)" by (rule prefix_prefix)
  qed
  show ?case
  proof (cases "prefix old (c # cs)")
    case True
    then have "length old \<le> length (c # cs)" by (rule prefix_length_le)
    then have "length old - length (c # cs) = 0" by (rule diff_is_0_eq')
    then have d: "drop (length old) ((c # cs) @ r) = drop (length old) (c # cs) @ r"
      by (simp only: drop_append drop_0)
    have "str_replace ((c # cs) @ r) old new =
          new @ str_replace (drop (length old) ((c # cs) @ r)) old new"
      using nonempty True iff by simp
    also have "\<dots> = new @ str_replace (drop (length old) (c # cs)) old new @ str_replace r old new"
      using "2.IH"(2) [OF nonempty True "2.prems"] by (simp only: d)
    also have "\<dots> = str_replace (c # cs) old new @ str_replace r old new"
      using nonempty True by simp
    finally show ?thesis .
  next
    case False
    with iff have "\<not> prefix old (c # cs @ r)" by simp
    with nonempty have "str_replace ((c # cs) @ r) old new = c # str_replace (cs @ r) old new"
      by simp
    also have "\<dots> = c # str_replace cs old new @ str_replace r old new"
      using "2.IH"(3) [OF nonempty False "2.prems"] by simp
    also have "\<dots> = str_replace (c # cs) old new @ str_replace r old new"
      using nonempty False by simp
    finally show ?thesis .
  qed
qed

lemma str_replace_copy:
  "old \<noteq> [] \<Longrightarrow> hd old \<notin> set m \<Longrightarrow> str_replace (m @ b) old new = m @ str_replace b old new"
proof (induction m)
  case Nil
  then show ?case by simp
next
  case (Cons x m)
  then have "\<not> prefix old ((x # m) @ b)"
    by (cases old) auto
  with Cons show ?case by simp
qed

lemma placeholder_not_prefix:
  assumes "placeholder ph" and "placeholder u" and "u \<noteq> ph"
  shows "\<not> prefix ph (u @ b)"
proof
  assume p: "prefix ph (u @ b)"
  from assms(1) obtain pn where ph: "ph = CHR ''{'' # pn @ [CHR ''}'']"
    and pn: "CHR ''}'' \<notin> set pn" by (rule placeholderE)
  from assms(2) obtain n where u: "u = CHR ''{'' # n @ [CHR ''}'']"
    and n: "CHR ''}'' \<notin> set n" by (rule placeholderE)
  from p ph u obtain zs where "n @ CHR ''}'' # b = pn @ CHR ''}'' # zs"
    by (auto simp: prefix_def)
  then have "takeWhile (\<lambda>c. c \<noteq> CHR ''}'') (n @ CHR ''}'' # b) =
             takeWhile (\<lambda>c. c \<noteq> CHR ''}'') (pn @ CHR ''}'' # zs)"
    by simp
  moreover have "takeWhile (\<lambda>c. c \<noteq> CHR ''}'') n = n"
    and "takeWhile (\<lambda>c. c \<noteq> CHR ''}'') pn = pn"
    using n pn by (simp_all add: takeWhile_eq_all_conv) metis+
  ultimately have "n = pn"
    by (simp add: takeWhile_tail)
  with ph u assms(3) show False by simp
qed

lemma str_replace_placeholder:
  assumes "placeholder ph" and "placeholder u" and "u \<noteq> ph"
  shows "str_replace (u @ b) ph v = u @ str_replace b ph v"
proof -
  from assms(1) obtain pn where ph: "ph = CHR ''{'' # pn @ [CHR ''}'']"
    by (rule placeholderE)
  from assms(2) obtain n where u: "u = CHR ''{'' # n @ [CHR ''}'']"
    and n: "CHR ''{'' \<notin> set n" by (rule placeholderE)
  have "\<not> prefix ph (u @ b)" using assms by (rule placeholder_not_prefix)
  then have "str_replace (u @ b) ph v = CHR ''{'' # str_replace ((n @ [CHR ''}'']) @ b) ph v"
    using ph u by simp
  also have "str_replace ((n @ [CHR ''}'']) @ b) ph v = (n @ [CHR ''}'']) @ str_replace b ph v"
    using ph n by (intro str_replace_copy) simp_all
  finally show ?thesis using u by simp
qed

lemma strip_around:
  assumes "u \<noteq> []" and "\<not> isspace (hd u)" and "\<not> isspace (last u)"
  shows "strip (a @ u @ b) = lstrip a @ u @ rstrip b"
proof -
  from assms(1) have hu: "u = hd u # tl u" by simp
  from assms(1) have "u = butlast u @ [last u]" by simp
  then have lu: "rev u = last u # rev (butlast u)"
    by (metis rev.simps(2) rev_rev_ident rev_swap)
  have "lstrip (a @ u @ b) = lstrip a @ u @ b"
    unfolding lstrip_def
    using dropWhile_append3 [of isspace "hd u" a "tl u @ b"] assms(2) hu
    by (metis append_Cons)
  moreover have "rstrip (x @ u @ b) = x @ u @ rstrip b" for x
  proof -
    have "dropWhile isspace (rev b @ rev u @ rev x) =
          dropWhile isspace (rev b) @ rev u @ rev x"
      using dropWhile_append3 [of isspace "last u" "rev b" "rev (butlast u) @ rev x"]
        assms(3) lu
      by (metis append_Cons)
    then show ?thesis by (simp add: rstrip_def)
  qed
  ultimately show ?thesis by (simp add: strip_def)
qed

lemma str_replace_around:
  assumes "placeholder ph" and "placeholder u" and "u \<noteq> ph"
  shows "str_replace (a @ u @ b) ph v = str_replace a ph v @ u @ str_replace b ph v"
proof -
  from assms(1) obtain pn where ph: "ph = CHR ''{'' # pn @ [CHR ''}'']"
    and pn: "CHR ''{'' \<notin> set pn" by (rule placeholderE)
  from assms(2) obtain n where u: "u = CHR ''{'' # n @ [CHR ''}'']"
    by (rule placeholderE)
  have "str_replace (a @ (u @ b)) ph v = str_replace a ph v @ str_replace (u @ b) ph v"
    using ph pn u by (intro str_replace_before_brace [where ?c0.0 = "CHR ''{''"]) simp_all
  then show ?thesis using str_replace_placeholder [OF assms] by simp
qed

lemma placeholder_recognized: "placeholder ''{summary}''" "placeholder ''{message}''"
  by (simp_all add: placeholder_def)

lemma placeholder_ends:
  assumes "placeholder u"
  shows "u \<noteq> []" and "\<not> isspace (hd u)" and "\<not> isspace (last u)"
proof -
  from assms obtain n where u: "u = CHR ''{'' # n @ [CHR ''}'']" by (rule placeholderE)
  then show "u \<noteq> []" by simp
  from u show "\<not> isspace (hd u)" by (simp add: isspace_def)
  from u show "\<not> isspace (last u)" by (simp add: isspace_def)
qed

text \<open>
  Claim C6. The rendering step of the resolver is \<open>template.replace(ph, value)\<close> with the
  placeholder \<open>{summary}\<close> (Stop) or \<open>{message}\<close> (Notification), followed in the Stop
  branch without a summary by \<open>strip\<close>. For every template and value: the template is a
  sequence of segments separated by the placeholder, none of which contains it, and the
  result is the same segments separated by the value, so each occurrence is substituted once
  and the value is not scanned again; and every other placeholder \<open>{name}\<close> of the
  template stands unchanged in the result, between what rendering makes of the text before
  it and of the text after it, also after \<open>strip\<close>.
\<close>

theorem render_substitutes_once:
  assumes "ph = ''{summary}'' \<or> ph = ''{message}''"
  shows "replace_method (JStr template) ph (JStr v) = Inr (str_replace template ph v) \<and>
    (\<exists>segs. segs \<noteq> [] \<and> template = str_join ph segs \<and>
       str_replace template ph v = str_join v segs \<and>
       list_all (\<lambda>seg. \<not> sublist ph seg) segs) \<and>
    (\<forall>a u b. template = a @ u @ b \<and> placeholder u \<and> u \<noteq> ph \<longrightarrow>
       str_replace template ph v = str_replace a ph v @ u @ str_replace b ph v \<and>
       strip (str_replace template ph v) =
         lstrip (str_replace a ph v) @ u @ rstrip (str_replace b ph v))"
proof -
  from assms have ph: "placeholder ph" and ne: "ph \<noteq> []"
    using placeholder_recognized by auto
  have a: "replace_method (JStr template) ph (JStr v) = Inr (str_replace template ph v)"
    by (simp add: replace_method_def)
  have b: "\<exists>segs. segs \<noteq> [] \<and> template = str_join ph segs \<and>
       str_replace template ph v = str_join v segs \<and>
       list_all (\<lambda>seg. \<not> sublist ph seg) segs"
    using ne by (rule str_replace_segments)
  have c: "str_replace template ph v = str_replace x ph v @ u @ str_replace y ph v \<and>
       strip (str_replace template ph v) =
         lstrip (str_replace x ph v) @ u @ rstrip (str_replace y ph v)"
    if "template = x @ u @ y" and "placeholder u" and "u \<noteq> ph" for x u y
  proof -
    have r: "str_replace template ph v = str_replace x ph v @ u @ str_replace y ph v"
      unfolding that(1) using ph that(2,3) by (rule str_replace_around)
    moreover have "strip (str_replace x ph v @ u @ str_replace y ph v) =
         lstrip (str_replace x ph v) @ u @ rstrip (str_replace y ph v)"
      using placeholder_ends [OF that(2)] by (rule strip_around)
    ultimately show ?thesis by simp
  qed
  from a b c show ?thesis by blast
qed

lemma render_example:
  "str_replace ''Done. {summary} {name}'' ''{summary}'' ''ok'' = ''Done. ok {name}''"
  "str_replace ''Done. {summary} '' ''{summary}'' ''ok'' = ''Done. ok ''"
  "str_replace [] ''{summary}'' ''ok'' = []"
  "placeholder ''{name}''"
  by code_simp+

theorem render_substitutes_once_witness:
  "placeholder ''{name}'' \<and>
   str_replace ''Done. {summary} {name}'' ''{summary}'' ''ok'' =
     str_replace ''Done. {summary} '' ''{summary}'' ''ok'' @ ''{name}'' @
     str_replace [] ''{summary}'' ''ok'' \<and>
   str_replace ''Done. {summary} {name}'' ''{summary}'' ''ok'' = ''Done. ok {name}''"
  using render_substitutes_once [of "''{summary}''" "''Done. {summary} {name}''" "''ok''"]
  by (simp add: render_example)

end
